theory Spec2Isabelle
  imports Main "HOL-Library.Multiset" "HOL-Library.Sublist" "HOL-Library.AList"
begin

section \<open>Strings and paths\<close>

text \<open>
  Paths and file names are modelled as ASCII strings. \<open>toLowerCase\<close> maps the letters
  \<open>A\<close> to \<open>Z\<close> to \<open>a\<close> to \<open>z\<close> and leaves every other character alone, which is what
  JavaScript's \<open>String.prototype.toLowerCase\<close> does on ASCII text.
\<close>

definition toLowerCase_char :: "char \<Rightarrow> char" where
  "toLowerCase_char c =
     (let n = (of_char c :: nat) in if 65 \<le> n \<and> n \<le> 90 then char_of (n + 32) else c)"

definition toLowerCase :: "string \<Rightarrow> string" where
  "toLowerCase s = map toLowerCase_char s"

text \<open>
  \<open>path.basename(p)\<close> (POSIX, no suffix argument): trailing slashes are dropped, then the
  component after the last remaining slash is returned.
\<close>

definition basename :: "string \<Rightarrow> string" where
  "basename p =
     rev (takeWhile (\<lambda>c. c \<noteq> CHR ''/'') (dropWhile (\<lambda>c. c = CHR ''/'') (rev p)))"

text \<open>
  \<open>path.extname(p)\<close> (POSIX): the part of the last component from its last dot on; empty
  when the component has no dot, when its only dot is its first character, and when the
  component is \<open>..\<close>.
\<close>

definition extname :: "string \<Rightarrow> string" where
  "extname p =
     (let b = basename p;
          e = rev (takeWhile (\<lambda>c. c \<noteq> CHR ''.'') (rev b))
      in if CHR ''.'' \<notin> set b then []
         else if Suc (length e) = length b then []
         else if b = ''..'' then []
         else CHR ''.'' # e)"

text \<open>
  \<open>path.join(relativePath, item)\<close> as the walk calls it: \<open>relativePath\<close> is empty at the
  root and a slash-separated relative path below it, \<open>item\<close> is an entry name returned by
  \<open>readdir\<close>.
\<close>

definition path_join :: "string \<Rightarrow> string \<Rightarrow> string" where
  "path_join relativePath item =
     (if relativePath = [] then item else relativePath @ ''/'' @ item)"

section \<open>GitHubClient: the extension tables\<close>

text \<open>\<open>_getFileImportance\<close>: the first matching rule wins; \<open>extScores[ext] || 10\<close>.\<close>

definition extScores :: "(string \<times> int) list" where
  "extScores =
     [(''.js'', 70), (''.py'', 70), (''.ts'', 70), (''.json'', 60), (''.yaml'', 60),
      (''.yml'', 60), (''.md'', 50), (''.txt'', 40), (''.html'', 30), (''.css'', 20)]"

definition getFileImportance :: "string \<Rightarrow> int" where
  "getFileImportance filePath =
     (let fileName = toLowerCase (basename filePath);
          ext = toLowerCase (extname filePath)
      in if fileName \<in> set [''readme.md'', ''readme.txt'', ''readme''] then 100
         else if fileName \<in> set [''package.json'', ''requirements.txt'', ''setup.py''] then 90
         else if fileName \<in> set [''index.js'', ''main.py'', ''app.py'', ''server.js''] then 80
         else (case map_of extScores ext of
                 None \<Rightarrow> 10
               | Some s \<Rightarrow> if s = 0 then 10 else s))"

text \<open>\<open>_getLanguageFromExtension\<close>: \<open>langMap[ext] || null\<close>.\<close>

definition langMap :: "(string \<times> string) list" where
  "langMap =
     [(''.js'', ''JavaScript''), (''.ts'', ''TypeScript''), (''.py'', ''Python''),
      (''.java'', ''Java''), (''.cpp'', ''C++''), (''.c'', ''C''), (''.cs'', ''C#''),
      (''.php'', ''PHP''), (''.rb'', ''Ruby''), (''.go'', ''Go''), (''.rs'', ''Rust''),
      (''.swift'', ''Swift''), (''.kt'', ''Kotlin''), (''.scala'', ''Scala''),
      (''.html'', ''HTML''), (''.css'', ''CSS''), (''.json'', ''JSON''), (''.xml'', ''XML''),
      (''.yaml'', ''YAML''), (''.yml'', ''YAML'')]"

definition getLanguageFromExtension :: "string \<Rightarrow> string option" where
  "getLanguageFromExtension ext = map_of langMap ext"

text \<open>\<open>_isBinaryFile\<close>: the lowercased extension is one of the listed ones.\<close>

definition binaryExts :: "string list" where
  "binaryExts =
     [''.jpg'', ''.jpeg'', ''.png'', ''.gif'', ''.bmp'', ''.ico'', ''.pdf'', ''.zip'',
      ''.tar'', ''.gz'', ''.rar'', ''.exe'', ''.dll'', ''.so'', ''.dylib'', ''.mp3'',
      ''.mp4'', ''.avi'', ''.mov'']"

definition isBinaryFile :: "string \<Rightarrow> bool" where
  "isBinaryFile filePath = (toLowerCase (extname filePath) \<in> set binaryExts)"

section \<open>The ranking of getMainFiles\<close>

text \<open>
  \<open>Array.prototype.sort\<close> with a comparator is a stable sort (Node 18). The sorted list
  is built from the right: each element is put before the first element it does not
  compare greater than, so elements that compare equal keep their input order. The
  comparator of \<open>getMainFiles\<close> is \<open>(a, b) => importance(b) - importance(a)\<close>.
\<close>

fun insert_by :: "('a \<Rightarrow> 'a \<Rightarrow> int) \<Rightarrow> 'a \<Rightarrow> 'a list \<Rightarrow> 'a list" where
  "insert_by cmp x [] = [x]"
| "insert_by cmp x (y # ys) = (if cmp x y \<le> 0 then x # y # ys else y # insert_by cmp x ys)"

definition sort_by :: "('a \<Rightarrow> 'a \<Rightarrow> int) \<Rightarrow> 'a list \<Rightarrow> 'a list" where
  "sort_by cmp xs = foldr (insert_by cmp) xs []"

definition byImportance :: "string \<Rightarrow> string \<Rightarrow> int" where
  "byImportance a b = getFileImportance b - getFileImportance a"

definition sortedFiles :: "string list \<Rightarrow> string list" where
  "sortedFiles paths = sort_by byImportance paths"

definition rank :: "string list \<Rightarrow> string list" where
  "rank paths = take 20 (sortedFiles paths)"

section \<open>The cloned repository on disk\<close>

text \<open>
  What \<open>readdir\<close> and \<open>stat\<close> show of the cloned directory: a finite tree. A directory
  lists its entries in \<open>readdir\<close> order.
\<close>

datatype fsnode =
    File nat "string option"
      \<comment> \<open>a regular file: \<open>stats.size\<close>, and the text \<open>readFile\<close> returns (\<open>None\<close>: it throws)\<close>
  | Dir "(string \<times> fsnode) list"
      \<comment> \<open>a directory and its entries\<close>
  | Unlistable
      \<comment> \<open>a directory whose \<open>readdir\<close> throws\<close>
  | Other
      \<comment> \<open>\<open>stat\<close> succeeds, neither \<open>isDirectory()\<close> nor \<open>isFile()\<close>\<close>
  | Broken
      \<comment> \<open>\<open>stat\<close> throws\<close>

text \<open>
  The file-system calls of \<open>readFileContent\<close> and \<open>_loadGitignore\<close>, each keyed by the path
  relative to \<open>repoPath\<close> that the caller joins to it: \<open>fs.pathExists\<close> (never throws),
  \<open>fs.stat(..).size\<close> and \<open>fs.readFile(.., "utf8")\<close> (\<open>None\<close>: the call throws).
\<close>

record disk =
  tree :: fsnode
  pathExists :: "string \<Rightarrow> bool"
  stat_size :: "string \<Rightarrow> nat option"
  readFile :: "string \<Rightarrow> string option"

section \<open>GitHubClient\<close>

datatype error = Error string

record client =
  repoPath :: "string option"

record file_entry =
  name :: string
  path :: string
  directory :: string
  fsize :: nat
  extension :: string

text \<open>
  The arrays and objects \<open>_walkDirectory\<close> fills: \<open>files\<close> and \<open>languages\<close> are its
  parameters of these names (\<open>languages\<close> in insertion order); \<open>calls\<close> is not in the
  source: it lists the \<open>relativePath\<close> argument of every invocation of \<open>_walkDirectory\<close>,
  in call order.
\<close>

record walk_state =
  files :: "file_entry list"
  languages :: "(string \<times> nat) list"
  calls :: "string list"

definition countLanguage :: "string \<Rightarrow> (string \<times> nat) list \<Rightarrow> (string \<times> nat) list" where
  "countLanguage language langs =
     AList.update language ((case map_of langs language of None \<Rightarrow> 0 | Some n \<Rightarrow> n) + 1) langs"

definition recordFile :: "string \<Rightarrow> string \<Rightarrow> string \<Rightarrow> nat \<Rightarrow> walk_state \<Rightarrow> walk_state" where
  "recordFile item relativeItemPath relativePath sz acc =
     (let ext = toLowerCase (extname item) in
      acc\<lparr>languages := (case getLanguageFromExtension ext of
                            None \<Rightarrow> languages acc
                          | Some language \<Rightarrow> countLanguage language (languages acc)),
          files := files acc @
            [\<lparr>name = item, path = relativeItemPath, directory = relativePath,
              fsize = sz, extension = ext\<rparr>]\<rparr>)"

text \<open>
  \<open>_walkDirectory\<close>. The matcher \<open>ig\<close> is \<open>ig.ignores\<close>: \<open>Some\<close> of its answer, or \<open>None\<close> when it
  throws (the \<open>ignore\<close> package rejects a path it does not take for a relative one). The
  \<open>try\<close> encloses \<open>readdir\<close> and the whole loop, and the \<open>catch\<close> is empty: an exception of
  \<open>readdir\<close> leaves the accumulators as they are, an exception of \<open>ig.ignores\<close> or of \<open>stat\<close>
  ends the loop of this directory with what has been accumulated so far. A recursive call
  never throws.
\<close>

type_synonym matcher = "string \<Rightarrow> bool option"

fun walkDirectory :: "matcher \<Rightarrow> string \<Rightarrow> fsnode \<Rightarrow> walk_state \<Rightarrow> walk_state"
and walkItems :: "matcher \<Rightarrow> string \<Rightarrow> (string \<times> fsnode) list \<Rightarrow> walk_state \<Rightarrow> walk_state"
where
  "walkDirectory ig relativePath (Dir items) acc =
     walkItems ig relativePath items (acc\<lparr>calls := calls acc @ [relativePath]\<rparr>)"
| "walkDirectory ig relativePath (File sz txt) acc = acc\<lparr>calls := calls acc @ [relativePath]\<rparr>"
| "walkDirectory ig relativePath Unlistable acc = acc\<lparr>calls := calls acc @ [relativePath]\<rparr>"
| "walkDirectory ig relativePath Other acc = acc\<lparr>calls := calls acc @ [relativePath]\<rparr>"
| "walkDirectory ig relativePath Broken acc = acc\<lparr>calls := calls acc @ [relativePath]\<rparr>"
| "walkItems ig relativePath [] acc = acc"
| "walkItems ig relativePath ((item, node) # rest) acc =
     (let relativeItemPath = path_join relativePath item in
      case ig relativeItemPath of
        None \<Rightarrow> acc
      | Some True \<Rightarrow> walkItems ig relativePath rest acc
      | Some False \<Rightarrow>
          (case node of
             Broken \<Rightarrow> acc
           | Dir es \<Rightarrow>
               walkItems ig relativePath rest (walkDirectory ig relativeItemPath node acc)
           | Unlistable \<Rightarrow>
               walkItems ig relativePath rest (walkDirectory ig relativeItemPath node acc)
           | File sz txt \<Rightarrow>
               walkItems ig relativePath rest
                 (recordFile item relativeItemPath relativePath sz acc)
           | Other \<Rightarrow> walkItems ig relativePath rest acc))"

text \<open>
  \<open>_loadGitignore\<close>. The \<open>ignore\<close> package is not part of the repository: it is the
  parameter \<open>ignoreLib\<close>, which turns the patterns added first (an array) and the text added
  after them, if any, into the matcher \<open>ig.ignores\<close>. A failed read of \<open>.gitignore\<close> is
  caught and leaves the default patterns alone.
\<close>

type_synonym ignore_package = "string list \<Rightarrow> string option \<Rightarrow> matcher"

definition defaultPatterns :: "string list" where
  "defaultPatterns =
     [''.git'', ''node_modules'', ''__pycache__'', ''*.pyc'', ''.DS_Store'', ''*.log'',
      ''dist'', ''build'']"

definition loadGitignore :: "ignore_package \<Rightarrow> disk \<Rightarrow> matcher" where
  "loadGitignore ignoreLib d =
     (if pathExists d ''.gitignore''
      then (case readFile d ''.gitignore'' of
              None \<Rightarrow> ignoreLib defaultPatterns None
            | Some gitignoreContent \<Rightarrow> ignoreLib defaultPatterns (Some gitignoreContent))
      else ignoreLib defaultPatterns None)"

text \<open>
  The methods take the client and return it with their result: \<open>Inl\<close> is a thrown
  \<open>Error\<close>. \<open>cloneRepository\<close> assigns \<open>this.repoPath\<close> before \<open>git.clone\<close> runs, so a failed
  clone leaves it set. \<open>gitClone\<close> is the outcome of \<open>tmp.dirSync\<close> and \<open>git.clone\<close> for a
  URL: \<open>None\<close> when \<open>tmp.dirSync\<close> throws, else the temporary directory's name and whether
  the clone succeeded.
\<close>

definition cloneRepository ::
  "(string \<Rightarrow> (string \<times> bool) option) \<Rightarrow> string \<Rightarrow> client \<Rightarrow> (error + string) \<times> client" where
  "cloneRepository gitClone githubUrl c =
     (case gitClone githubUrl of
        None \<Rightarrow> (Inl (Error ''Failed to clone repository''), c)
      | Some (tmpDir, ok) \<Rightarrow>
          if ok then (Inr tmpDir, c\<lparr>repoPath := Some tmpDir\<rparr>)
          else (Inl (Error ''Failed to clone repository''), c\<lparr>repoPath := Some tmpDir\<rparr>))"

record file_structure =
  total_files :: nat
  structure_languages :: "(string \<times> nat) list"
  structure_files :: "file_entry list"

definition walked :: "ignore_package \<Rightarrow> disk \<Rightarrow> walk_state" where
  "walked ignoreLib d =
     walkDirectory (loadGitignore ignoreLib d) [] (tree d) \<lparr>files = [], languages = [], calls = []\<rparr>"

definition getFileStructure ::
  "ignore_package \<Rightarrow> disk \<Rightarrow> client \<Rightarrow> (error + file_structure) \<times> client" where
  "getFileStructure ignoreLib d c =
     (case repoPath c of
        None \<Rightarrow> (Inl (Error ''Repository not cloned yet''), c)
      | Some root \<Rightarrow>
          (let w = walked ignoreLib d in
           (Inr \<lparr>total_files = length (files w),
                 structure_languages = languages w,
                 structure_files = take 100 (files w)\<rparr>, c)))"

definition getMainFiles ::
  "ignore_package \<Rightarrow> disk \<Rightarrow> client \<Rightarrow> (error + string list) \<times> client" where
  "getMainFiles ignoreLib d c =
     (case repoPath c of
        None \<Rightarrow> (Inl (Error ''Repository not cloned yet''), c)
      | Some root \<Rightarrow>
          (let w = walked ignoreLib d;
               sorted = sort_by byImportance (map path (files w))
           in (Inr (take 20 sorted), c)))"

text \<open>
  \<open>readFileContent(filePath, maxSize = 50000)\<close>: an omitted \<open>maxSize\<close> is \<open>None\<close>. The check of
  \<open>repoPath\<close> stands before the \<open>try\<close>; everything after it is inside, and the \<open>catch\<close>
  returns \<open>null\<close>.
\<close>

definition readFileContent ::
  "disk \<Rightarrow> string \<Rightarrow> nat option \<Rightarrow> client \<Rightarrow> (error + string option) \<times> client" where
  "readFileContent d filePath maxSizeArg c =
     (let maxSize = (case maxSizeArg of None \<Rightarrow> 50000 | Some m \<Rightarrow> m) in
      case repoPath c of
        None \<Rightarrow> (Inl (Error ''Repository not cloned yet''), c)
      | Some root \<Rightarrow>
          if \<not> pathExists d filePath then (Inr None, c)
          else (case stat_size d filePath of
                  None \<Rightarrow> (Inr None, c)
                | Some sz \<Rightarrow>
                    if sz > maxSize then (Inr None, c)
                    else if isBinaryFile filePath then (Inr None, c)
                    else (case readFile d filePath of
                            None \<Rightarrow> (Inr None, c)
                          | Some content \<Rightarrow> (Inr (Some content), c))))"

text \<open>
  \<open>cleanup\<close>: \<open>fs.remove(this.repoPath)\<close> when \<open>repoPath\<close> is set, and nothing otherwise; a failed
  removal is caught. The result is the directory removed, if any.
\<close>

definition cleanup :: "client \<Rightarrow> string option \<times> client" where
  "cleanup c = (case repoPath c of None \<Rightarrow> (None, c) | Some root \<Rightarrow> (Some root, c))"

text \<open>
  \<open>extractRepoInfo\<close>: the first match of \<open>/github\.com\/([^\/]+)\/([^\/]+)/\<close>; both groups
  are greedy runs of characters other than a slash.
\<close>

definition repoInfo_at :: "string \<Rightarrow> (string \<times> string) option" where
  "repoInfo_at s =
     (if prefix ''github.com/'' s
      then (let r = drop 11 s;
                owner = takeWhile (\<lambda>ch. ch \<noteq> CHR ''/'') r
            in if owner = [] then None
               else (case dropWhile (\<lambda>ch. ch \<noteq> CHR ''/'') r of
                       [] \<Rightarrow> None
                     | slash # r' \<Rightarrow>
                         (let repoName = takeWhile (\<lambda>ch. ch \<noteq> CHR ''/'') r'
                          in if repoName = [] then None else Some (owner, repoName))))
      else None)"

fun repoInfo_match :: "string \<Rightarrow> (string \<times> string) option" where
  "repoInfo_match [] = None"
| "repoInfo_match (ch # s) =
     (case repoInfo_at (ch # s) of
        Some m \<Rightarrow> Some m
      | None \<Rightarrow> repoInfo_match s)"

definition extractRepoInfo :: "string \<Rightarrow> error + (string \<times> string)" where
  "extractRepoInfo githubUrl =
     (case repoInfo_match githubUrl of
        None \<Rightarrow> Inl (Error ''Failed to extract repo info: Invalid GitHub URL format'')
      | Some (owner, repoName) \<Rightarrow>
          Inr (owner, if suffix ''.git'' repoName
                      then take (length repoName - 4) repoName else repoName))"

section \<open>The Lambda handler\<close>

text \<open>
  A property assignment \<open>obj[key] = value\<close> on a plain object, with a non-empty string as
  value: the key \<open>__proto__\<close> reaches the prototype setter, which ignores a string.
\<close>

definition assign :: "string \<Rightarrow> string \<Rightarrow> (string \<times> string) list \<Rightarrow> (string \<times> string) list" where
  "assign key v obj = (if key = ''__proto__'' then obj else AList.update key v obj)"

text \<open>
  The loop that fills \<open>fileContents\<close>: \<open>if (content) fileContents[filePath] = content\<close>.
  \<open>null\<close> and the empty string are both falsy.
\<close>

fun readFileContents ::
  "disk \<Rightarrow> string list \<Rightarrow> (string \<times> string) list \<Rightarrow> client \<Rightarrow>
     (error + (string \<times> string) list) \<times> client" where
  "readFileContents d [] fileContents c = (Inr fileContents, c)"
| "readFileContents d (filePath # rest) fileContents c =
     (case readFileContent d filePath (Some 50000) c of
        (Inl e, c') \<Rightarrow> (Inl e, c')
      | (Inr content, c') \<Rightarrow>
          readFileContents d rest
            (case content of
               None \<Rightarrow> fileContents
             | Some text \<Rightarrow> if text \<noteq> [] then assign filePath text fileContents else fileContents)
            c')"

fun readFileCalls :: "disk \<Rightarrow> string list \<Rightarrow> client \<Rightarrow> string list" where
  "readFileCalls d [] c = []"
| "readFileCalls d (filePath # rest) c =
     (case readFileContent d filePath (Some 50000) c of
        (Inl e, c') \<Rightarrow> [filePath]
      | (Inr content, c') \<Rightarrow> filePath # readFileCalls d rest c')"

text \<open>
  The calls the handler makes on its components, in order. \<open>Cleanup\<close> is
  \<open>githubClient.cleanup()\<close>.
\<close>

datatype call =
    CloneRepository
  | ExtractRepoInfo
  | GetFileStructure
  | GetMainFiles
  | ReadFileContent string
  | AnalyzeFullRepository
  | GenerateTutorial
  | GenerateMarkdownTutorialFromLLM
  | SaveTutorialFiles
  | UploadTutorialFiles
  | Cleanup

text \<open>
  The event after defaults: whether \<open>JSON.parse(event.body)\<close> succeeds (or there is no
  body), \<open>github_url\<close> (empty when missing), \<open>upload_to_s3\<close>, and the bucket name the
  \<open>S3Uploader\<close> constructor ends with (empty when neither the event nor the environment
  names one).
\<close>

record event =
  body_parses :: bool
  github_url :: string
  upload_to_s3 :: bool
  s3_bucket :: string

text \<open>
  What lies outside the repository's code: the clone and what it leaves on disk, the
  \<open>ignore\<close> package, and whether each later step resolves (Bedrock, the tutorial
  generator, the local save and the S3 upload).
\<close>

record collaborators =
  gitClone :: "string \<Rightarrow> (string \<times> bool) option"
  cloned :: disk
  ignoreLib :: ignore_package
  analysis_ok :: bool
  tutorial_ok :: bool
  markdown_ok :: bool
  save_ok :: bool
  upload_ok :: bool

record response =
  statusCode :: nat
  success :: bool

definition createErrorResponse :: "nat \<Rightarrow> response" where
  "createErrorResponse code = \<lparr>statusCode = code, success = False\<rparr>"

definition finish :: "collaborators \<Rightarrow> event \<Rightarrow> call list \<Rightarrow> response \<times> call list" where
  "finish env ev made =
     (if \<not> analysis_ok env then (createErrorResponse 500, made @ [AnalyzeFullRepository])
      else if \<not> tutorial_ok env
      then (createErrorResponse 500, made @ [AnalyzeFullRepository, GenerateTutorial])
      else if \<not> markdown_ok env
      then (createErrorResponse 500,
            made @ [AnalyzeFullRepository, GenerateTutorial, GenerateMarkdownTutorialFromLLM])
      else if upload_to_s3 ev
      then (if \<not> save_ok env
            then (createErrorResponse 500,
                  made @ [AnalyzeFullRepository, GenerateTutorial,
                          GenerateMarkdownTutorialFromLLM, SaveTutorialFiles])
            else if \<not> upload_ok env
            then (createErrorResponse 500,
                  made @ [AnalyzeFullRepository, GenerateTutorial,
                          GenerateMarkdownTutorialFromLLM, SaveTutorialFiles,
                          UploadTutorialFiles])
            else (\<lparr>statusCode = 200, success = True\<rparr>,
                  made @ [AnalyzeFullRepository, GenerateTutorial,
                          GenerateMarkdownTutorialFromLLM, SaveTutorialFiles,
                          UploadTutorialFiles]))
      else (\<lparr>statusCode = 200, success = True\<rparr>,
            made @ [AnalyzeFullRepository, GenerateTutorial, GenerateMarkdownTutorialFromLLM]))"

text \<open>
  \<open>exports.handler\<close>: the response and the calls made. Every exception inside the \<open>try\<close>
  becomes the 500 response of the \<open>catch\<close>; there is no \<open>finally\<close>.
\<close>

definition handler :: "collaborators \<Rightarrow> event \<Rightarrow> response \<times> call list" where
  "handler env ev =
     (if \<not> body_parses ev then (createErrorResponse 500, [])
      else if github_url ev = [] then (createErrorResponse 400, [])
      else if upload_to_s3 ev \<and> s3_bucket ev = [] then (createErrorResponse 500, [])
      else
        (case cloneRepository (gitClone env) (github_url ev) \<lparr>repoPath = None\<rparr> of
           (Inl e, c1) \<Rightarrow> (createErrorResponse 500, [CloneRepository])
         | (Inr tmpDir, c1) \<Rightarrow>
        (case extractRepoInfo (github_url ev) of
           Inl e \<Rightarrow> (createErrorResponse 500, [CloneRepository, ExtractRepoInfo])
         | Inr repoInfo \<Rightarrow>
        (case getFileStructure (ignoreLib env) (cloned env) c1 of
           (Inl e, c2) \<Rightarrow>
             (createErrorResponse 500, [CloneRepository, ExtractRepoInfo, GetFileStructure])
         | (Inr fileStructure, c2) \<Rightarrow>
        (case getMainFiles (ignoreLib env) (cloned env) c2 of
           (Inl e, c3) \<Rightarrow>
             (createErrorResponse 500,
              [CloneRepository, ExtractRepoInfo, GetFileStructure, GetMainFiles])
         | (Inr mainFiles, c3) \<Rightarrow>
        (let reads = [CloneRepository, ExtractRepoInfo, GetFileStructure, GetMainFiles] @
                     map ReadFileContent (readFileCalls (cloned env) (take 50 mainFiles) c3)
         in case readFileContents (cloned env) (take 50 mainFiles) [] c3 of
              (Inl e, c4) \<Rightarrow> (createErrorResponse 500, reads)
            | (Inr fileContents, c4) \<Rightarrow> finish env ev reads))))))"

section \<open>Paths, well-formed trees and a disk read off a tree\<close>

text \<open>
  \<open>within q p\<close>: the relative path \<open>q\<close> is \<open>p\<close> itself or one of the directories above it.
\<close>

definition within :: "string \<Rightarrow> string \<Rightarrow> bool" where
  "within q p = (q \<noteq> [] \<and> (q = p \<or> prefix (q @ ''/'') p))"

text \<open>
  \<open>clear_path ig p\<close>: the matcher answers "not ignored" for \<open>p\<close> and for every directory
  above it; \<open>clear_state\<close>: this holds of every recorded file and of every directory walked.
\<close>

definition clear_path :: "matcher \<Rightarrow> string \<Rightarrow> bool" where
  "clear_path ig p = (\<forall>q. within q p \<longrightarrow> ig q = Some False)"

definition clear_state :: "matcher \<Rightarrow> walk_state \<Rightarrow> bool" where
  "clear_state ig w = ((\<forall>f \<in> set (files w). clear_path ig (path f)) \<and>
                       (\<forall>r \<in> set (calls w). clear_path ig r))"

text \<open>An entry name as \<open>readdir\<close> returns it: not empty, and without a slash.\<close>

definition entry_name :: "string \<Rightarrow> bool" where
  "entry_name n = (n \<noteq> [] \<and> CHR ''/'' \<notin> set n)"

fun wf_tree :: "fsnode \<Rightarrow> bool"
and wf_items :: "(string \<times> fsnode) list \<Rightarrow> bool" where
  "wf_tree (Dir items) = wf_items items"
| "wf_tree (File sz txt) = True"
| "wf_tree Unlistable = True"
| "wf_tree Other = True"
| "wf_tree Broken = True"
| "wf_items [] = True"
| "wf_items ((item, node) # rest) = (entry_name item \<and> wf_tree node \<and> wf_items rest)"

text \<open>The components of a slash-separated path, empty ones left out.\<close>

definition components :: "string \<Rightarrow> string list" where
  "components p =
     filter (\<lambda>seg. seg \<noteq> [])
       (foldr (\<lambda>ch acc. if ch = CHR ''/'' then [] # acc
                         else (case acc of [] \<Rightarrow> [[ch]] | seg # segs \<Rightarrow> (ch # seg) # segs))
              p [[]])"

fun lookup :: "fsnode \<Rightarrow> string list \<Rightarrow> fsnode option" where
  "lookup node [] = Some node"
| "lookup (Dir items) (seg # segs) =
     (case map_of items seg of None \<Rightarrow> None | Some child \<Rightarrow> lookup child segs)"
| "lookup node (seg # segs) = None"

text \<open>
  The disk whose path-keyed calls agree with a tree, for paths made of entry names: a
  path exists when it leads to a node that \<open>stat\<close> accepts; only regular files have a size
  and a text here (reading anything else throws).
\<close>

definition disk_of_tree :: "fsnode \<Rightarrow> disk" where
  "disk_of_tree t =
     \<lparr>tree = t,
      pathExists = (\<lambda>p. case lookup t (components p) of
                           None \<Rightarrow> False | Some Broken \<Rightarrow> False | Some node \<Rightarrow> True),
      stat_size = (\<lambda>p. case lookup t (components p) of
                          Some (File sz txt) \<Rightarrow> Some sz | _ \<Rightarrow> None),
      readFile = (\<lambda>p. case lookup t (components p) of
                         Some (File sz txt) \<Rightarrow> txt | _ \<Rightarrow> None)\<rparr>"

text \<open>
  The \<open>ignore\<close> package (version 5, default options) on the patterns it is evaluated on
  here: patterns made of letters, digits, \<open>.\<close>, \<open>_\<close>, \<open>-\<close> and \<open>*\<close>, as each of the eight default
  patterns is. Such a pattern has no slash, negation, comment or escape: it is matched,
  ignoring case, against each component of the path, \<open>*\<close> standing for any run of
  characters, and a path is ignored when one of its components matches one of the
  patterns (the path itself or a directory above it is named by the pattern). The package
  throws for a path that is empty, that consists of dots only, or that starts with dots
  followed by a slash.
\<close>

definition simple_pattern :: "string \<Rightarrow> bool" where
  "simple_pattern pat =
     (pat \<noteq> [] \<and>
      list_all (\<lambda>ch. ch \<in> set ''abcdefghijklmnopqrstuvwxyzABCDEFGHIJKLMNOPQRSTUVWXYZ0123456789._-*'')
        pat)"

fun glob :: "string \<Rightarrow> string \<Rightarrow> bool" where
  "glob [] s = (s = [])"
| "glob (c # pat) [] = (c = CHR ''*'' \<and> glob pat [])"
| "glob (c # pat) (d # s) =
     (if c = CHR ''*'' then glob pat (d # s) \<or> glob (c # pat) s else c = d \<and> glob pat s)"

definition relative_path :: "string \<Rightarrow> bool" where
  "relative_path p =
     (case dropWhile (\<lambda>ch. ch = CHR ''.'') p of [] \<Rightarrow> False | ch # r \<Rightarrow> ch \<noteq> CHR ''/'')"

definition simpleIgnores :: "string list \<Rightarrow> matcher" where
  "simpleIgnores patterns p =
     (if relative_path p
      then Some (list_ex (\<lambda>seg. list_ex (\<lambda>pat. glob (toLowerCase pat) (toLowerCase seg)) patterns)
                   (components p))
      else None)"

text \<open>The matcher of a repository without a \<open>.gitignore\<close>: the default patterns alone.\<close>

definition ignoresDefault :: matcher where
  "ignoresDefault p = simpleIgnores defaultPatterns p"

text \<open>
  The package as a whole, for an array and a \<open>.gitignore\<close> text of such patterns: the lines
  of the text are added after the array (an empty line matches nothing).
\<close>

definition text_lines :: "string \<Rightarrow> string list" where
  "text_lines text =
     map (\<lambda>line. if suffix [CHR 0x0D] line then butlast line else line)
       (foldr (\<lambda>ch acc. if ch = CHR 0x0A then [] # acc
                         else (case acc of [] \<Rightarrow> [[ch]] | line # ls \<Rightarrow> (ch # line) # ls))
              text [[]])"

definition simplePackage :: ignore_package where
  "simplePackage patterns gitignoreContent =
     simpleIgnores
       (patterns @ (case gitignoreContent of None \<Rightarrow> [] | Some text \<Rightarrow> text_lines text))"

section \<open>CodeAnalyzer: parsing the model's response\<close>

text \<open>
  \<open>response.match(/\{[\s\S]*\}/)\<close>: the leftmost match. At a start position the pattern
  needs an opening brace; the greedy star then takes everything up to the last closing
  brace of the text.
\<close>

definition match_here :: "string \<Rightarrow> string option" where
  "match_here s =
     (case s of
        [] \<Rightarrow> None
      | c # r \<Rightarrow>
          if c = CHR ''{''
          then (let body = rev (dropWhile (\<lambda>ch. ch \<noteq> CHR ''}'') (rev r))
                in if body = [] then None else Some (c # body))
          else None)"

fun jsonMatch :: "string \<Rightarrow> string option" where
  "jsonMatch [] = None"
| "jsonMatch (c # s) =
     (case match_here (c # s) of
        Some m \<Rightarrow> Some m
      | None \<Rightarrow> jsonMatch s)"

text \<open>
  \<open>_parseJsonResponse\<close>. \<open>JSON.parse\<close> is the parameter \<open>parse\<close> (\<open>None\<close>: it throws a
  \<open>SyntaxError\<close>). The body of the \<open>try\<close> returns a value or throws (\<open>Inl\<close>); the \<open>catch\<close>
  turns the exception into the second fallback. \<open>substring(0, 500)\<close> is \<open>take 500\<close>.
\<close>

datatype 'j parsed_response =
    Parsed 'j
  | Fallback string string
      \<comment> \<open>the fields \<open>error\<close> and \<open>raw_response\<close>\<close>

definition parseJsonResponse :: "(string \<Rightarrow> 'j option) \<Rightarrow> string \<Rightarrow> 'j parsed_response" where
  "parseJsonResponse parse response =
     (case (case jsonMatch response of
              Some m \<Rightarrow> (case parse m of None \<Rightarrow> Inl () | Some j \<Rightarrow> Inr (Parsed j))
            | None \<Rightarrow> Inr (Fallback ''Could not parse response'' (take 500 response))) of
        Inl exn \<Rightarrow> Fallback ''JSON parse error'' (take 500 response)
      | Inr result \<Rightarrow> result)"

text \<open>
  The specification's wording, for comparison: "the first top-level \<open>{...}\<close> JSON object
  substring", read as the text from the first opening brace to the closing brace that
  balances it. \<open>closing depth s\<close> is the number of characters of \<open>s\<close> up to and including
  that closing brace.
\<close>

fun closing :: "nat \<Rightarrow> string \<Rightarrow> nat option" where
  "closing depth [] = None"
| "closing depth (c # s) =
     (if c = CHR ''}'' then (if depth = 0 then Some 1 else map_option Suc (closing (depth - 1) s))
      else if c = CHR ''{'' then map_option Suc (closing (Suc depth) s)
      else map_option Suc (closing depth s))"

definition first_top_level_object :: "string \<Rightarrow> string option" where
  "first_top_level_object response =
     (case dropWhile (\<lambda>ch. ch \<noteq> CHR ''{'') response of
        [] \<Rightarrow> None
      | c # r \<Rightarrow> (case closing 0 r of None \<Rightarrow> None | Some n \<Rightarrow> Some (c # take n r)))"

definition parseJsonResponse_as_specified ::
  "(string \<Rightarrow> 'j option) \<Rightarrow> string \<Rightarrow> 'j parsed_response" where
  "parseJsonResponse_as_specified parse response =
     (case first_top_level_object response of
        None \<Rightarrow> Fallback ''Could not parse response'' (take 500 response)
      | Some m \<Rightarrow>
          (case parse m of
             None \<Rightarrow> Fallback ''JSON parse error'' (take 500 response)
           | Some j \<Rightarrow> Parsed j))"

section \<open>JSON.parse\<close>

text \<open>
  \<open>JSON.parse\<close> belongs to the platform. This is its grammar (ECMA-404) as a lexer and a
  pushdown automaton over the tokens; the value keeps strings and numbers as they are
  written and object members in the order written. It stands for \<open>JSON.parse\<close> where a
  concrete text is evaluated.
\<close>

datatype json =
    JNull
  | JBool bool
  | JNumber string
  | JString string
  | JArray "json list"
  | JObject "(string \<times> json) list"

datatype token =
    LBrace | RBrace | LBracket | RBracket | Colon | Comma
  | TString string | TNumber string | TTrue | TFalse | TNull

definition is_digit :: "char \<Rightarrow> bool" where
  "is_digit c = (c \<in> set ''0123456789'')"

definition is_hex :: "char \<Rightarrow> bool" where
  "is_hex c = (c \<in> set ''0123456789abcdefABCDEF'')"

definition is_ws :: "char \<Rightarrow> bool" where
  "is_ws c = (c \<in> set [CHR 0x20, CHR 0x09, CHR 0x0A, CHR 0x0D])"

text \<open>
  After an opening quote: the length of the string's body, up to its closing quote. A
  backslash starts one of the escapes; a control character is not allowed.
\<close>

fun string_body :: "string \<Rightarrow> nat option" where
  "string_body [] = None"
| "string_body (c # cs) =
     (if c = CHR 0x22 then Some 0
      else if c = CHR 0x5C
      then (case cs of
              [] \<Rightarrow> None
            | e # r \<Rightarrow>
                if e \<in> set [CHR 0x22, CHR 0x5C, CHR ''/'', CHR ''b'', CHR ''f'', CHR ''n'',
                             CHR ''r'', CHR ''t'']
                then map_option (\<lambda>n. n + 2) (string_body r)
                else if e = CHR ''u'' \<and> 4 \<le> length r \<and> list_all is_hex (take 4 r)
                then map_option (\<lambda>n. n + 6) (string_body (drop 4 r))
                else None)
      else if (of_char c :: nat) < 32 then None
      else map_option Suc (string_body cs))"

text \<open>
  The length of the number at the start of the text: an optional minus, \<open>0\<close> or a digit
  run not starting with \<open>0\<close>, then a fraction and an exponent if they are complete.
\<close>

definition digits :: "string \<Rightarrow> nat" where
  "digits s = length (takeWhile is_digit s)"

definition fraction_len :: "string \<Rightarrow> nat" where
  "fraction_len s =
     (case s of
        [] \<Rightarrow> 0
      | c # r \<Rightarrow> if c = CHR ''.'' \<and> 0 < digits r then Suc (digits r) else 0)"

definition exponent_len :: "string \<Rightarrow> nat" where
  "exponent_len s =
     (case s of
        [] \<Rightarrow> 0
      | c # r \<Rightarrow>
          if c = CHR ''e'' \<or> c = CHR ''E''
          then (case r of
                  [] \<Rightarrow> 0
                | sg # r' \<Rightarrow>
                    if (sg = CHR ''+'' \<or> sg = CHR ''-'') \<and> 0 < digits r' then 2 + digits r'
                    else if 0 < digits r then Suc (digits r)
                    else 0)
          else 0)"

definition number_len :: "string \<Rightarrow> nat option" where
  "number_len s =
     (let sign = (if prefix ''-'' s then 1 else 0);
          s1 = drop sign s
      in case s1 of
           [] \<Rightarrow> None
         | d # r \<Rightarrow>
             if \<not> is_digit d then None
             else (let int_len = (if d = CHR ''0'' then 1 else Suc (digits r));
                       frac = fraction_len (drop int_len s1);
                       ex = exponent_len (drop (int_len + frac) s1)
                   in Some (sign + int_len + frac + ex)))"

fun lex :: "string \<Rightarrow> token list option" where
  "lex [] = Some []"
| "lex (c # cs) =
     (if is_ws c then lex cs
      else if c = CHR ''{'' then map_option (Cons LBrace) (lex cs)
      else if c = CHR ''}'' then map_option (Cons RBrace) (lex cs)
      else if c = CHR ''['' then map_option (Cons LBracket) (lex cs)
      else if c = CHR '']'' then map_option (Cons RBracket) (lex cs)
      else if c = CHR '':'' then map_option (Cons Colon) (lex cs)
      else if c = CHR '','' then map_option (Cons Comma) (lex cs)
      else if c = CHR 0x22
      then (case string_body cs of
              None \<Rightarrow> None
            | Some n \<Rightarrow> map_option (Cons (TString (take n cs))) (lex (drop (Suc n) cs)))
      else if c = CHR ''-'' \<or> is_digit c
      then (case number_len (c # cs) of
              None \<Rightarrow> None
            | Some n \<Rightarrow> map_option (Cons (TNumber (take n (c # cs)))) (lex (drop (n - 1) cs)))
      else if prefix ''true'' (c # cs) then map_option (Cons TTrue) (lex (drop 3 cs))
      else if prefix ''false'' (c # cs) then map_option (Cons TFalse) (lex (drop 4 cs))
      else if prefix ''null'' (c # cs) then map_option (Cons TNull) (lex (drop 3 cs))
      else None)"

text \<open>
  The automaton: a stack of open arrays and objects (an object with the key whose value
  is awaited, if any) and what may come next.
\<close>

datatype frame =
    InArray "json list"
  | InObject "(string \<times> json) list" "string option"

datatype expect =
    Value | ValueOrEnd | KeyOrEnd | Key | ColonNext | CommaOrEnd | Done json

definition complete :: "json \<Rightarrow> frame list \<Rightarrow> (frame list \<times> expect) option" where
  "complete v stack =
     (case stack of
        [] \<Rightarrow> Some ([], Done v)
      | InArray vs # rest \<Rightarrow> Some (InArray (vs @ [v]) # rest, CommaOrEnd)
      | InObject ms (Some k) # rest \<Rightarrow> Some (InObject (ms @ [(k, v)]) None # rest, CommaOrEnd)
      | InObject ms None # rest \<Rightarrow> None)"

definition start_value :: "token \<Rightarrow> frame list \<Rightarrow> (frame list \<times> expect) option" where
  "start_value t stack =
     (case t of
        LBrace \<Rightarrow> Some (InObject [] None # stack, KeyOrEnd)
      | LBracket \<Rightarrow> Some (InArray [] # stack, ValueOrEnd)
      | TString s \<Rightarrow> complete (JString s) stack
      | TNumber n \<Rightarrow> complete (JNumber n) stack
      | TTrue \<Rightarrow> complete (JBool True) stack
      | TFalse \<Rightarrow> complete (JBool False) stack
      | TNull \<Rightarrow> complete JNull stack
      | _ \<Rightarrow> None)"

definition close_array :: "frame list \<Rightarrow> (frame list \<times> expect) option" where
  "close_array stack =
     (case stack of InArray vs # rest \<Rightarrow> complete (JArray vs) rest | _ \<Rightarrow> None)"

definition close_object :: "frame list \<Rightarrow> (frame list \<times> expect) option" where
  "close_object stack =
     (case stack of InObject ms None # rest \<Rightarrow> complete (JObject ms) rest | _ \<Rightarrow> None)"

definition read_key :: "token \<Rightarrow> frame list \<Rightarrow> (frame list \<times> expect) option" where
  "read_key t stack =
     (case (t, stack) of
        (TString k, InObject ms None # rest) \<Rightarrow> Some (InObject ms (Some k) # rest, ColonNext)
      | _ \<Rightarrow> None)"

definition step :: "frame list \<times> expect \<Rightarrow> token \<Rightarrow> (frame list \<times> expect) option" where
  "step st t =
     (case st of (stack, e) \<Rightarrow>
        (case e of
           Value \<Rightarrow> start_value t stack
         | ValueOrEnd \<Rightarrow> if t = RBracket then close_array stack else start_value t stack
         | KeyOrEnd \<Rightarrow> if t = RBrace then close_object stack else read_key t stack
         | Key \<Rightarrow> read_key t stack
         | ColonNext \<Rightarrow> if t = Colon then Some (stack, Value) else None
         | CommaOrEnd \<Rightarrow>
             (case stack of
                InArray vs # rest \<Rightarrow>
                  if t = Comma then Some (stack, Value)
                  else if t = RBracket then close_array stack else None
              | InObject ms k # rest \<Rightarrow>
                  if t = Comma then Some (stack, Key)
                  else if t = RBrace then close_object stack else None
              | [] \<Rightarrow> None)
         | Done v \<Rightarrow> None))"

fun run :: "frame list \<times> expect \<Rightarrow> token list \<Rightarrow> json option" where
  "run st [] = (case st of (stack, Done v) \<Rightarrow> Some v | _ \<Rightarrow> None)"
| "run st (t # ts) = (case step st t of None \<Rightarrow> None | Some st' \<Rightarrow> run st' ts)"

definition JSON_parse :: "string \<Rightarrow> json option" where
  "JSON_parse s = (case lex s of None \<Rightarrow> None | Some ts \<Rightarrow> run ([], Value) ts)"

section \<open>Example repositories\<close>

definition ex_tree :: fsnode where
  "ex_tree = Dir [(''node_modules'', Dir [(''foo.js'', File 10 (Some ''x''))]),
                  (''src'', Dir [(''a.py'', File 3 (Some ''y'')), (''b.log'', File 1 None)])]"

definition broken_tree :: fsnode where
  "broken_tree =
     Dir [(''src'', Dir [(''a.py'', File 3 (Some ''a'')), (''b'', Broken),
                         (''c.py'', File 4 (Some ''c''))]),
          (''z.js'', File 5 (Some ''z''))]"

definition nothingIgnored :: matcher where
  "nothingIgnored p = Some False"

definition many_files :: fsnode where
  "many_files = Dir (map (\<lambda>i. (replicate (Suc i) CHR ''a'', File i None)) [0..<101])"

definition ignoreNothing :: ignore_package where
  "ignoreNothing patterns gitignoreContent = nothingIgnored"

definition blank_disk :: "fsnode \<Rightarrow> disk" where
  "blank_disk t = \<lparr>tree = t, pathExists = (\<lambda>p. False), stat_size = (\<lambda>p. None),
                    readFile = (\<lambda>p. None)\<rparr>"

definition png_disk :: disk where
  "png_disk = \<lparr>tree = Dir [(''image.png'', File 60000 (Some ''PNG''))],
                pathExists = (\<lambda>p. p = ''image.png''),
                stat_size = (\<lambda>p. if p = ''image.png'' then Some 60000 else None),
                readFile = (\<lambda>p. if p = ''image.png'' then Some ''PNG'' else None)\<rparr>"

definition cloned_client :: client where
  "cloned_client = \<lparr>repoPath = Some ''/tmp/repo''\<rparr>"

definition empty_file_disk :: disk where
  "empty_file_disk =
     disk_of_tree (Dir [(''empty.txt'', File 0 (Some [])), (''a.txt'', File 2 (Some ''hi''))])"

definition readme_disk :: disk where
  "readme_disk = disk_of_tree (Dir [(''README.md'', File 5 (Some ''hello''))])"

definition all_ok :: collaborators where
  "all_ok = \<lparr>gitClone = (\<lambda>url. Some (''/tmp/tmp-1'', True)), cloned = readme_disk,
             ignoreLib = simplePackage, analysis_ok = True, tutorial_ok = True,
             markdown_ok = True, save_ok = True, upload_ok = True\<rparr>"

definition clone_fails :: collaborators where
  "clone_fails = all_ok\<lparr>gitClone := (\<lambda>url. Some (''/tmp/tmp-1'', False))\<rparr>"

definition hello_event :: event where
  "hello_event = \<lparr>body_parses = True, github_url = ''https://github.com/octocat/Hello-World'',
                  upload_to_s3 = False, s3_bucket = []\<rparr>"

text \<open>
  The scenario of the specification: what the root lists (in the order the specification
  names the entries), the entries the walk is to record, and the same directory listed in
  alphabetical order.
\<close>

definition scenario_items :: "string \<Rightarrow> string \<Rightarrow> (string \<times> fsnode) list" where
  "scenario_items js md =
     [(''index.js'', File 500 (Some js)),
      (''node_modules'', Dir [(''foo.js'', File 10 (Some ''x''))]),
      (''image.png'', File 1024 (Some ''PNG'')),
      (''README.md'', File 200 (Some md))]"

definition scenario_entries :: "file_entry list" where
  "scenario_entries =
     [\<lparr>name = ''index.js'', path = ''index.js'', directory = [], fsize = 500,
        extension = ''.js''\<rparr>,
      \<lparr>name = ''image.png'', path = ''image.png'', directory = [], fsize = 1024,
        extension = ''.png''\<rparr>,
      \<lparr>name = ''README.md'', path = ''README.md'', directory = [], fsize = 200,
        extension = ''.md''\<rparr>]"

definition scenario_sorted :: "(string \<times> fsnode) list" where
  "scenario_sorted =
     [(''README.md'', File 200 (Some ''# Hello'')),
      (''image.png'', File 1024 (Some ''PNG'')),
      (''index.js'', File 500 (Some ''main()'')),
      (''node_modules'', Dir [(''foo.js'', File 10 (Some ''x''))])]"

section \<open>Properties of the ranking\<close>

lemma insert_by_insort:
  "insert_by byImportance x ys = insort_key (\<lambda>p. - getFileImportance p) x ys"
  by (induction ys) (auto simp: byImportance_def)

lemma sortedFiles_sort_key:
  "sortedFiles paths = sort_key (\<lambda>p. - getFileImportance p) paths"
  unfolding sortedFiles_def sort_by_def
  by (induction paths) (simp_all add: insert_by_insort)



lemma sortedFiles_mset: "mset (sortedFiles paths) = mset paths"
  by (simp add: sortedFiles_sort_key)



section \<open>Properties of the walk\<close>

lemma prefix_slash_in_name:
  assumes "prefix (q @ ''/'') item"
  shows "CHR ''/'' \<in> set item"
proof -
  from assms have "set (q @ ''/'') \<subseteq> set item" by (rule set_mono_prefix)
  then show ?thesis by simp
qed

lemma within_join:
  assumes nm: "entry_name item" and w: "within q (path_join rel item)"
  shows "q = path_join rel item \<or> within q rel"
proof (cases "rel = []")
  case True
  with w nm show ?thesis
    by (auto simp: within_def path_join_def entry_name_def dest: prefix_slash_in_name)
next
  case False
  from w have q: "q \<noteq> []" by (simp add: within_def)
  show ?thesis
  proof (cases "q = path_join rel item")
    case True
    then show ?thesis by simp
  next
    case neq: False
    with w False have "prefix (q @ ''/'') (rel @ ''/'' @ item)"
      by (simp add: within_def path_join_def)
    then consider (a) "prefix (q @ ''/'') rel"
      | (b) us where "q @ ''/'' = rel @ us" "prefix us (''/'' @ item)"
      by (auto simp: prefix_append)
    then show ?thesis
    proof cases
      case a
      with q show ?thesis by (simp add: within_def)
    next
      case b
      show ?thesis
      proof (cases us)
        case Nil
        with b have "prefix (q @ ''/'') rel" by simp
        with q show ?thesis by (simp add: within_def)
      next
        case (Cons u us')
        with b have u: "u = CHR ''/''" and p: "prefix us' item" by simp_all
        show ?thesis
        proof (cases "us' = []")
          case True
          with b Cons u have "q = rel" by simp
          with False show ?thesis by (simp add: within_def)
        next
          case ne: False
          from b Cons u have "q @ ''/'' = (rel @ ''/'') @ us'" by simp
          with ne have "last us' = CHR ''/''"
            by (metis last_appendR last_snoc)
          with ne have "CHR ''/'' \<in> set us'" by (metis last_in_set)
          with p have "CHR ''/'' \<in> set item" by (meson set_mono_prefix subsetD)
          with nm show ?thesis by (simp add: entry_name_def)
        qed
      qed
    qed
  qed
qed

lemma clear_root: "clear_path ig []"
  by (simp add: clear_path_def within_def)

lemma clear_join:
  "clear_path ig rel \<Longrightarrow> entry_name item \<Longrightarrow> ig (path_join rel item) = Some False \<Longrightarrow>
   clear_path ig (path_join rel item)"
  unfolding clear_path_def using within_join by blast

lemma clear_recordFile:
  "clear_state ig acc \<Longrightarrow> clear_path ig p \<Longrightarrow> clear_state ig (recordFile item p rel sz acc)"
  by (auto simp: clear_state_def recordFile_def Let_def split: option.splits)



lemma clear_call:
  "clear_state ig acc \<Longrightarrow> clear_path ig rel \<Longrightarrow>
   clear_state ig (acc\<lparr>calls := calls acc @ [rel]\<rparr>)"
  by (simp add: clear_state_def)

lemma walk_clear:
  "wf_tree node \<Longrightarrow> clear_path ig rel \<Longrightarrow> clear_state ig acc \<Longrightarrow>
     clear_state ig (walkDirectory ig rel node acc)"
  "wf_items items \<Longrightarrow> clear_path ig rel \<Longrightarrow> clear_state ig acc \<Longrightarrow>
     clear_state ig (walkItems ig rel items acc)"
proof (induction ig rel node acc and ig rel items acc rule: walkDirectory_walkItems.induct)
  case (1 ig relativePath items acc)
  then show ?case by (simp add: clear_call)
next
  case (7 ig rel item node rest acc)
  let ?x = "path_join rel item"
  from "7.prems" have nm: "entry_name item" and wn: "wf_tree node" and wr: "wf_items rest"
    by simp_all
  note cr = \<open>clear_path ig rel\<close> and ca = \<open>clear_state ig acc\<close>
  show ?case
  proof (cases "ig ?x")
    case None
    with ca show ?thesis by (simp add: Let_def)
  next
    case (Some ignored)
    show ?thesis
    proof (cases ignored)
      case True
      with Some have ign: "ig ?x = Some True" by simp
      from "7.IH"(1) [OF refl ign refl wr cr ca] ign show ?thesis by (simp add: Let_def)
    next
      case False
      with Some have kept: "ig ?x = Some False" by simp
      have cx: "clear_path ig ?x" using cr nm kept by (rule clear_join)
      show ?thesis
      proof (cases node)
        case (File fsz ftext)
        have "clear_state ig (recordFile item ?x rel fsz acc)"
          using ca cx by (rule clear_recordFile)
        from "7.IH"(2) [OF refl kept refl File wr cr this] kept File show ?thesis
          by (simp add: Let_def)
      next
        case (Dir es)
        have "clear_state ig (walkDirectory ig ?x node acc)"
          using "7.IH"(3) [OF refl kept refl Dir wn cx ca] .
        from "7.IH"(4) [OF refl kept refl Dir wr cr this] kept Dir show ?thesis
          by (simp add: Let_def)
      next
        case Unlistable
        have "clear_state ig (walkDirectory ig ?x node acc)"
          using "7.IH"(5) [OF refl kept refl Unlistable wn cx ca] .
        from "7.IH"(6) [OF refl kept refl Unlistable wr cr this] kept Unlistable show ?thesis
          by (simp add: Let_def)
      next
        case Other
        from "7.IH"(7) [OF refl kept refl Other wr cr ca] kept Other show ?thesis
          by (simp add: Let_def)
      next
        case Broken
        with kept ca show ?thesis by (simp add: Let_def)
      qed
    qed
  qed
qed (simp_all add: clear_call)


text \<open>
  Claim C6. For every directory tree whose entry names are names (not empty, no slash)
  and every ignore matcher, every directory the walk recurses into and every file it
  records has a relative path for which the matcher answered "not ignored", and so has
  every directory above it.
\<close>

theorem walk_respects_ignore:
  assumes "wf_tree t"
  shows "(\<forall>r \<in> set (calls (walkDirectory ig [] t \<lparr>files = [], languages = [], calls = []\<rparr>)).
            \<forall>q. within q r \<longrightarrow> ig q = Some False)
       \<and> (\<forall>f \<in> set (files (walkDirectory ig [] t \<lparr>files = [], languages = [], calls = []\<rparr>)).
            \<forall>q. within q (path f) \<longrightarrow> ig q = Some False)"
proof -
  have "clear_state ig \<lparr>files = [], languages = [], calls = []\<rparr>"
    by (simp add: clear_state_def)
  with assms clear_root
  have "clear_state ig (walkDirectory ig [] t \<lparr>files = [], languages = [], calls = []\<rparr>)"
    by (rule walk_clear(1))
  then show ?thesis
    unfolding clear_state_def clear_path_def by blast
qed

theorem walk_respects_ignore_witness:
  "wf_tree ex_tree
   \<and> map path (files (walkDirectory ignoresDefault [] ex_tree
                         \<lparr>files = [], languages = [], calls = []\<rparr>)) = [''src/a.py'']
   \<and> calls (walkDirectory ignoresDefault [] ex_tree
              \<lparr>files = [], languages = [], calls = []\<rparr>) = [[], ''src'']
   \<and> within ''src'' ''src/a.py''
   \<and> ignoresDefault ''src'' = Some False"
proof -
  let ?w = "walkDirectory ignoresDefault [] ex_tree \<lparr>files = [], languages = [], calls = []\<rparr>"
  have wf: "wf_tree ex_tree" by code_simp
  have fs: "map path (files ?w) = [''src/a.py'']" by code_simp
  have cs: "calls ?w = [[], ''src'']" by code_simp
  have wi: "within ''src'' ''src/a.py''" by code_simp
  from fs obtain f where f: "f \<in> set (files ?w)" "path f = ''src/a.py''"
    by (cases "files ?w") auto
  from walk_respects_ignore [OF wf, of ignoresDefault] f wi
  have "ignoresDefault ''src'' = Some False" by metis
  with wf fs cs wi show ?thesis by simp
qed

lemma walkItems_append:
  "walkItems ig rel (pre @ post) acc =
     (if list_ex (\<lambda>(n, node). ig (path_join rel n) = None \<or>
                                 (ig (path_join rel n) = Some False \<and> node = Broken)) pre
      then walkItems ig rel pre acc
      else walkItems ig rel post (walkItems ig rel pre acc))"
proof (induction pre arbitrary: acc)
  case Nil
  then show ?case by simp
next
  case (Cons e pre)
  obtain n node where e: "e = (n, node)" by (cases e)
  show ?case
    unfolding e
    by (cases node; cases "ig (path_join rel n)")
       (auto simp: Cons.IH Let_def split: bool.splits)
qed

text \<open>
  Claim C10. When \<open>stat\<close> fails for an entry that is not ignored, in a directory that is
  not ignored, the loop over that directory ends there: the result is that of the entries
  before the failing one, the entries after it are never looked at; and the loop of the
  parent directory goes on with the entries after this directory.
\<close>

theorem stat_failure_skips_remaining_siblings:
  assumes d: "ig (path_join rel dir) = Some False"
      and b: "ig (path_join (path_join rel dir) item) = Some False"
  shows "walkItems ig (path_join rel dir) (pre @ (item, Broken) # post) acc =
           walkItems ig (path_join rel dir) pre acc
       \<and> walkItems ig rel ((dir, Dir (pre @ (item, Broken) # post)) # siblings) acc =
           walkItems ig rel siblings
             (walkItems ig (path_join rel dir) pre
                (acc\<lparr>calls := calls acc @ [path_join rel dir]\<rparr>))"
proof -
  have skip: "walkItems ig (path_join rel dir) (pre @ (item, Broken) # post) acc' =
              walkItems ig (path_join rel dir) pre acc'" for acc'
    using b by (simp add: walkItems_append Let_def)
  from d show ?thesis by (simp add: skip Let_def)
qed

theorem stat_failure_skips_remaining_siblings_witness:
  "nothingIgnored (path_join [] ''src'') = Some False
   \<and> nothingIgnored (path_join (path_join [] ''src'') ''b'') = Some False
   \<and> map path (files (walkDirectory nothingIgnored [] broken_tree
                         \<lparr>files = [], languages = [], calls = []\<rparr>)) = [''src/a.py'', ''z.js'']"
proof -
  let ?pre = "[(''a.py'', File 3 (Some ''a''))]"
  let ?post = "[(''c.py'', File 4 (Some ''c''))]"
  let ?sib = "[(''z.js'', File 5 (Some ''z''))]"
  let ?acc = "\<lparr>files = [], languages = [], calls = [[]]\<rparr>"
  have 1: "nothingIgnored (path_join [] ''src'') = Some False" by (simp add: nothingIgnored_def)
  have 2: "nothingIgnored (path_join (path_join [] ''src'') ''b'') = Some False"
    by (simp add: nothingIgnored_def)
  have 3: "map path (files (walkItems nothingIgnored [] ?sib
             (walkItems nothingIgnored (path_join [] ''src'') ?pre
               (?acc\<lparr>calls := calls ?acc @ [path_join [] ''src'']\<rparr>)))) =
           [''src/a.py'', ''z.js'']"
    by code_simp
  have "walkItems nothingIgnored []
          ((''src'', Dir (?pre @ (''b'', Broken) # ?post)) # ?sib) ?acc =
        walkItems nothingIgnored [] ?sib
          (walkItems nothingIgnored (path_join [] ''src'') ?pre
             (?acc\<lparr>calls := calls ?acc @ [path_join [] ''src'']\<rparr>))"
    using stat_failure_skips_remaining_siblings [OF 1 2] by (rule conjunct2)
  with 3 have "map path (files (walkItems nothingIgnored []
          ((''src'', Dir (?pre @ (''b'', Broken) # ?post)) # ?sib) ?acc)) =
        [''src/a.py'', ''z.js'']" by simp
  then have "map path (files (walkDirectory nothingIgnored [] broken_tree
                         \<lparr>files = [], languages = [], calls = []\<rparr>)) = [''src/a.py'', ''z.js'']"
    by (simp add: broken_tree_def)
  with 1 2 show ?thesis by simp
qed

section \<open>Properties of the client methods\<close>

lemma getMainFiles_rank:
  "repoPath c = Some root \<Longrightarrow>
   getMainFiles lib d c = (Inr (rank (map path (files (walked lib d)))), c)"
  by (simp add: getMainFiles_def rank_def sortedFiles_def Let_def)

text \<open>
  Claim C7. For a cloned repository, \<open>getFileStructure\<close> returns as \<open>total_files\<close> the number
  of all files the walk recorded, with no cap, and as \<open>files\<close> the first 100 of them in the
  order the walk met them (all of them when there are at most 100); \<open>getMainFiles\<close> ranks
  the paths of all recorded files, so each of them is in the full sorted order.
\<close>

theorem structure_capped_ranking_uncapped:
  assumes "repoPath c = Some root"
  shows "\<exists>s. getFileStructure lib d c = (Inr s, c)
           \<and> total_files s = length (files (walked lib d))
           \<and> structure_files s = take 100 (files (walked lib d))
           \<and> length (structure_files s) = min 100 (total_files s)
           \<and> (total_files s \<le> 100 \<longrightarrow> structure_files s = files (walked lib d))
           \<and> getMainFiles lib d c = (Inr (rank (map path (files (walked lib d)))), c)
           \<and> (\<forall>f \<in> set (files (walked lib d)).
                 path f \<in> set (sortedFiles (map path (files (walked lib d)))))"
proof -
  have "\<forall>f \<in> set (files (walked lib d)).
          path f \<in> set (sortedFiles (map path (files (walked lib d))))"
    by (metis image_eqI list.set_map set_mset_mset sortedFiles_mset)
  with assms show ?thesis
    by (simp add: getFileStructure_def Let_def getMainFiles_rank min_def)
qed

lemma walkItems_flat_length:
  "length (files (walkItems nothingIgnored rel (map (\<lambda>i. (nm i, File i None)) is) acc)) =
   length (files acc) + length is"
  by (induction "is" arbitrary: acc)
     (simp_all add: nothingIgnored_def recordFile_def Let_def split: option.splits)

lemma many_files_walked:
  "length (files (walked ignoreNothing (blank_disk many_files))) = 101"
  by (simp add: walked_def loadGitignore_def ignoreNothing_def blank_disk_def many_files_def
        walkItems_flat_length)

theorem structure_capped_ranking_uncapped_witness:
  "repoPath \<lparr>repoPath = Some ''/tmp/repo''\<rparr> = Some ''/tmp/repo''
   \<and> length (files (walked ignoreNothing (blank_disk many_files))) = 101
   \<and> (\<exists>s. getFileStructure ignoreNothing (blank_disk many_files) \<lparr>repoPath = Some ''/tmp/repo''\<rparr>
             = (Inr s, \<lparr>repoPath = Some ''/tmp/repo''\<rparr>)
          \<and> total_files s = 101 \<and> length (structure_files s) = 100)"
proof -
  have c: "repoPath \<lparr>repoPath = Some ''/tmp/repo''\<rparr> = Some ''/tmp/repo''" by simp
  note n = many_files_walked
  from structure_capped_ranking_uncapped [OF c, of ignoreNothing "blank_disk many_files"]
  obtain s where
    "getFileStructure ignoreNothing (blank_disk many_files) \<lparr>repoPath = Some ''/tmp/repo''\<rparr>
       = (Inr s, \<lparr>repoPath = Some ''/tmp/repo''\<rparr>)"
    "total_files s = length (files (walked ignoreNothing (blank_disk many_files)))"
    "length (structure_files s) = min 100 (total_files s)"
    by blast
  with n c show ?thesis by auto
qed

text \<open>
  Claim C8. \<open>getFileStructure\<close> called twice in a row on an unchanged disk, the second call
  on the client as the first call left it, returns the same result both times (the same
  \<open>total_files\<close>, \<open>languages\<close> and \<open>files\<close>, or the same error); the accumulators are
  created afresh by each call and the client is left as it was.
\<close>

theorem getFileStructure_twice:
  "(case getFileStructure lib d c of
      (r1, c1) \<Rightarrow> (case getFileStructure lib d c1 of
                     (r2, c2) \<Rightarrow> r2 = r1 \<and> c2 = c1 \<and> c1 = c))"
  by (simp add: getFileStructure_def Let_def split: option.splits)

text \<open>
  Claim C5. For a cloned repository and every relative path, \<open>readFileContent\<close> returns
  \<open>null\<close>, and throws nothing, when the file does not exist, when its size is greater than
  \<open>maxSize\<close> (50000 when omitted), and when its lowercased extension is one of the nineteen
  binary extensions, whatever its size and whether it exists or not; a failing \<open>stat\<close> or
  \<open>readFile\<close> gives \<open>null\<close> as well; and for every path the call returns a value.
\<close>

theorem readFileContent_absent:
  assumes "repoPath c = Some root"
  shows "(\<not> pathExists d p \<longrightarrow> readFileContent d p m c = (Inr None, c))
       \<and> (\<forall>sz. stat_size d p = Some sz \<and> sz > (case m of None \<Rightarrow> 50000 | Some k \<Rightarrow> k) \<longrightarrow>
             readFileContent d p m c = (Inr None, c))
       \<and> (toLowerCase (extname p) \<in> set binaryExts \<longrightarrow>
             readFileContent d p m c = (Inr None, c))
       \<and> (stat_size d p = None \<longrightarrow> readFileContent d p m c = (Inr None, c))
       \<and> (readFile d p = None \<longrightarrow> readFileContent d p m c = (Inr None, c))
       \<and> (\<exists>r. readFileContent d p m c = (Inr r, c))
       \<and> binaryExts =
           [''.jpg'', ''.jpeg'', ''.png'', ''.gif'', ''.bmp'', ''.ico'', ''.pdf'', ''.zip'',
            ''.tar'', ''.gz'', ''.rar'', ''.exe'', ''.dll'', ''.so'', ''.dylib'', ''.mp3'',
            ''.mp4'', ''.avi'', ''.mov'']"
proof -
  have 1: "\<not> pathExists d p \<longrightarrow> readFileContent d p m c = (Inr None, c)"
    using assms by (simp add: readFileContent_def)
  have 2: "\<forall>sz. stat_size d p = Some sz \<and> sz > (case m of None \<Rightarrow> 50000 | Some k \<Rightarrow> k) \<longrightarrow>
             readFileContent d p m c = (Inr None, c)"
    using assms by (auto simp: readFileContent_def Let_def)
  have 3: "toLowerCase (extname p) \<in> set binaryExts \<longrightarrow>
             readFileContent d p m c = (Inr None, c)"
    using assms unfolding readFileContent_def isBinaryFile_def Let_def
    by (simp split: option.splits)
  have 4: "stat_size d p = None \<longrightarrow> readFileContent d p m c = (Inr None, c)"
    using assms by (simp add: readFileContent_def)
  have 5: "readFile d p = None \<longrightarrow> readFileContent d p m c = (Inr None, c)"
    using assms unfolding readFileContent_def Let_def by (simp split: option.splits)
  have 6: "\<exists>r. readFileContent d p m c = (Inr r, c)"
    using assms unfolding readFileContent_def Let_def by (simp split: option.splits)
  from 1 2 3 4 5 6 show ?thesis by (simp add: binaryExts_def)
qed

theorem readFileContent_absent_witness:
  "repoPath cloned_client = Some ''/tmp/repo''
   \<and> pathExists png_disk ''image.png''
   \<and> toLowerCase (extname ''image.png'') \<in> set binaryExts
   \<and> readFileContent png_disk ''image.png'' None cloned_client = (Inr None, cloned_client)
   \<and> \<not> pathExists png_disk ''missing.txt''
   \<and> readFileContent png_disk ''missing.txt'' None cloned_client = (Inr None, cloned_client)"
proof -
  have c: "repoPath cloned_client = Some ''/tmp/repo''" by (simp add: cloned_client_def)
  have e: "pathExists png_disk ''image.png''" by (simp add: png_disk_def)
  have b: "toLowerCase (extname ''image.png'') \<in> set binaryExts" by code_simp
  have n: "\<not> pathExists png_disk ''missing.txt''" by (simp add: png_disk_def)
  from readFileContent_absent [OF c, of png_disk "''image.png''" None] b
  have 1: "readFileContent png_disk ''image.png'' None cloned_client = (Inr None, cloned_client)"
    by blast
  from readFileContent_absent [OF c, of png_disk "''missing.txt''" None] n
  have 2: "readFileContent png_disk ''missing.txt'' None cloned_client = (Inr None, cloned_client)"
    by blast
  from c e b n 1 2 show ?thesis by simp
qed

section \<open>Properties of the handler\<close>

lemma readFileContent_cloned:
  "repoPath c = Some root \<Longrightarrow> \<exists>r. readFileContent d p m c = (Inr r, c)"
  unfolding readFileContent_def Let_def by (simp split: option.splits)

lemma map_of_assign:
  "map_of (assign k v obj) q =
     (if k = ''__proto__'' then map_of obj q else if q = k then Some v else map_of obj q)"
  by (simp add: assign_def update_conv')

lemma readFileContents_no_empty:
  "readFileContents d paths obj c = (Inr m, c') \<Longrightarrow> \<forall>q. map_of obj q \<noteq> Some [] \<Longrightarrow>
   map_of m q \<noteq> Some []"
proof (induction paths arbitrary: obj c)
  case Nil
  then show ?case by simp
next
  case (Cons a paths)
  obtain r c1 where r: "readFileContent d a (Some 50000) c = (r, c1)" by (cases "readFileContent d a (Some 50000) c")
  show ?case
  proof (cases r)
    case (Inl e)
    with Cons.prems r show ?thesis by simp
  next
    case (Inr content)
    let ?obj = "case content of None \<Rightarrow> obj
                | Some text \<Rightarrow> if text \<noteq> [] then assign a text obj else obj"
    from Cons.prems(1) r Inr have run: "readFileContents d paths ?obj c1 = (Inr m, c')" by simp
    have "\<forall>q. map_of ?obj q \<noteq> Some []"
      using Cons.prems(2) by (auto simp: map_of_assign split: option.splits)
    with run show ?thesis by (rule Cons.IH)
  qed
qed

lemma readFileContents_omits:
  assumes c: "repoPath c = Some root"
      and e: "readFileContent d p (Some 50000) c = (Inr (Some []), c)"
  shows "map_of obj p = None \<Longrightarrow>
         \<exists>m. readFileContents d paths obj c = (Inr m, c) \<and> map_of m p = None"
proof (induction paths arbitrary: obj)
  case Nil
  then show ?case by simp
next
  case (Cons a paths)
  from readFileContent_cloned [OF c] obtain r where
    r: "readFileContent d a (Some 50000) c = (Inr r, c)" by blast
  let ?obj = "case r of None \<Rightarrow> obj
              | Some text \<Rightarrow> if text \<noteq> [] then assign a text obj else obj"
  have "map_of ?obj p = None"
    using Cons.prems e r by (auto simp: map_of_assign split: option.splits)
  from Cons.IH [OF this] r show ?case by simp
qed

text \<open>
  Claim C9. For a cloned repository, a file that exists, has size 0, has no binary
  extension and reads as the empty string is loaded as the empty string by
  \<open>readFileContent\<close> under every \<open>maxSize\<close>, yet the handler's loop leaves its path out of
  \<open>fileContents\<close> whatever list of paths it runs over; and no run of the loop, on any
  disk, maps a path to the empty string.
\<close>

theorem empty_file_omitted:
  assumes "repoPath c = Some root" and "pathExists d p" and "stat_size d p = Some 0"
      and "\<not> isBinaryFile p" and "readFile d p = Some []"
  shows "readFileContent d p (Some maxSize) c = (Inr (Some []), c)
       \<and> (\<forall>paths. \<exists>m. readFileContents d paths [] c = (Inr m, c) \<and> map_of m p = None)
       \<and> (\<forall>d' paths c' m c'' q.
             readFileContents d' paths [] c' = (Inr m, c'') \<longrightarrow> map_of m q \<noteq> Some [])"
proof -
  have 1: "readFileContent d p (Some k) c = (Inr (Some []), c)" for k
    using assms by (simp add: readFileContent_def)
  have 2: "\<exists>m. readFileContents d paths [] c = (Inr m, c) \<and> map_of m p = None" for paths
    using readFileContents_omits [OF assms(1) 1, of "[]" paths] by simp
  have 3: "readFileContents d' paths [] c' = (Inr m, c'') \<longrightarrow> map_of m q \<noteq> Some []"
    for d' paths c' m c'' q
    using readFileContents_no_empty [of d' paths "[]" c' m c'' q] by simp
  from 1 2 3 show ?thesis by blast
qed

theorem empty_file_omitted_witness:
  "repoPath cloned_client = Some ''/tmp/repo''
   \<and> pathExists empty_file_disk ''empty.txt''
   \<and> stat_size empty_file_disk ''empty.txt'' = Some 0
   \<and> \<not> isBinaryFile ''empty.txt''
   \<and> readFile empty_file_disk ''empty.txt'' = Some []
   \<and> readFileContent empty_file_disk ''empty.txt'' (Some 50000) cloned_client =
       (Inr (Some []), cloned_client)
   \<and> readFileContents empty_file_disk [''empty.txt'', ''a.txt''] [] cloned_client =
       (Inr [(''a.txt'', ''hi'')], cloned_client)"
proof -
  have c: "repoPath cloned_client = Some ''/tmp/repo''" by (simp add: cloned_client_def)
  have e: "pathExists empty_file_disk ''empty.txt''" by code_simp
  have s: "stat_size empty_file_disk ''empty.txt'' = Some 0" by code_simp
  have b: "\<not> isBinaryFile ''empty.txt''" by code_simp
  have r: "readFile empty_file_disk ''empty.txt'' = Some []" by code_simp
  have e': "pathExists empty_file_disk ''a.txt''" by code_simp
  have s': "stat_size empty_file_disk ''a.txt'' = Some 2" by code_simp
  have b': "\<not> isBinaryFile ''a.txt''" by code_simp
  have r': "readFile empty_file_disk ''a.txt'' = Some ''hi''" by code_simp
  have l: "readFileContents empty_file_disk [''empty.txt'', ''a.txt''] [] cloned_client =
       (Inr [(''a.txt'', ''hi'')], cloned_client)"
    by (simp add: readFileContent_def assign_def c e s b r e' s' b' r')
  from empty_file_omitted [OF c e s b r, of 50000]
  have "readFileContent empty_file_disk ''empty.txt'' (Some 50000) cloned_client =
       (Inr (Some []), cloned_client)" by blast
  with c e s b r l show ?thesis by simp
qed

lemma finish_cleanup_iff:
  "Cleanup \<in> set (snd (finish env ev made)) \<longleftrightarrow> Cleanup \<in> set made"
  by (simp add: finish_def)

lemma handler_no_cleanup: "Cleanup \<notin> set (snd (handler env ev))"
  unfolding handler_def Let_def
  by (simp add: finish_cleanup_iff image_iff split: prod.splits sum.splits)

lemma readme_walked:
  "walked simplePackage readme_disk =
     \<lparr>files = [\<lparr>name = ''README.md'', path = ''README.md'', directory = [], fsize = 5,
                 extension = ''.md''\<rparr>],
      languages = [], calls = [[]]\<rparr>"
  by code_simp

lemma readme_read:
  "readFileContent readme_disk ''README.md'' (Some 50000) \<lparr>repoPath = Some ''/tmp/tmp-1''\<rparr> =
     (Inr (Some ''hello''), \<lparr>repoPath = Some ''/tmp/tmp-1''\<rparr>)"
proof -
  have e: "pathExists readme_disk ''README.md''" by code_simp
  have s: "stat_size readme_disk ''README.md'' = Some 5" by code_simp
  have b: "\<not> isBinaryFile ''README.md''" by code_simp
  have r: "readFile readme_disk ''README.md'' = Some ''hello''" by code_simp
  show ?thesis by (simp add: readFileContent_def e s b r)
qed

lemma hello_info:
  "extractRepoInfo ''https://github.com/octocat/Hello-World'' = Inr (''octocat'', ''Hello-World'')"
  by code_simp


text \<open>
  Claim C1, as the code has it. The handler never calls \<open>cleanup\<close>: on a run that clones,
  analyses and answers 200, and on a run whose clone fails and answers 500, the calls made
  hold no \<open>Cleanup\<close>, so the temporary directory that \<open>cloneRepository\<close> created stays
  behind where the claim asks for exactly one removal.
\<close>

theorem handler_leaves_clone_behind:
  "handler all_ok hello_event =
     (\<lparr>statusCode = 200, success = True\<rparr>,
      [CloneRepository, ExtractRepoInfo, GetFileStructure, GetMainFiles,
       ReadFileContent ''README.md'', AnalyzeFullRepository, GenerateTutorial,
       GenerateMarkdownTutorialFromLLM])
   \<and> count_list (snd (handler all_ok hello_event)) Cleanup = 0
   \<and> handler clone_fails hello_event = (\<lparr>statusCode = 500, success = False\<rparr>, [CloneRepository])
   \<and> count_list (snd (handler clone_fails hello_event)) Cleanup = 0"
proof -
  have s: "sort_by byImportance [''README.md''] = [''README.md'']" by (simp add: sort_by_def)
  have 1: "handler all_ok hello_event =
     (\<lparr>statusCode = 200, success = True\<rparr>,
      [CloneRepository, ExtractRepoInfo, GetFileStructure, GetMainFiles,
       ReadFileContent ''README.md'', AnalyzeFullRepository, GenerateTutorial,
       GenerateMarkdownTutorialFromLLM])"
    by (simp add: handler_def all_ok_def hello_event_def cloneRepository_def hello_info
          getFileStructure_def getMainFiles_def readme_walked s readme_read finish_def Let_def)
  have 2: "handler clone_fails hello_event =
             (\<lparr>statusCode = 500, success = False\<rparr>, [CloneRepository])"
    by (simp add: handler_def clone_fails_def all_ok_def hello_event_def cloneRepository_def
          createErrorResponse_def)
  show ?thesis unfolding 1 2 by simp
qed

section \<open>The scenario of the specification\<close>

lemma perm3_cases:
  assumes "mset xs = mset [a, b, c]"
  shows "xs \<in> {[a, b, c], [a, c, b], [b, a, c], [b, c, a], [c, a, b], [c, b, a]}"
proof -
  from assms have "length xs = 3" by (metis length_Cons list.size(3) numeral_3_eq_3 size_mset)
  then obtain x y z where xs: "xs = [x, y, z]"
    by (metis (no_types, opaque_lifting) length_0_conv length_Suc_conv numeral_3_eq_3)
  from assms show ?thesis unfolding xs
    by (auto simp: add_eq_conv_ex)
qed

lemma walkItems_files_only:
  assumes "list_all (\<lambda>(n, node). ig (path_join rel n) = Some True \<or>
              (ig (path_join rel n) = Some False \<and> (\<exists>sz t. node = File sz t))) items"
  shows "walkItems ig rel items acc =
           fold (\<lambda>(n, node) a. case node of File sz t \<Rightarrow> recordFile n (path_join rel n) rel sz a
                                 | _ \<Rightarrow> a)
                (filter (\<lambda>(n, node). ig (path_join rel n) = Some False) items) acc"
  using assms
proof (induction items arbitrary: acc)
  case Nil
  then show ?case by simp
next
  case (Cons e items)
  obtain n node where e: "e = (n, node)" by (cases e)
  from Cons.prems have rest: "list_all (\<lambda>(n, node). ig (path_join rel n) = Some True \<or>
              (ig (path_join rel n) = Some False \<and> (\<exists>sz t. node = File sz t))) items"
    by simp
  show ?case
  proof (cases "ig (path_join rel n) = Some True")
    case True
    then show ?thesis unfolding e by (simp add: Cons.IH [OF rest] Let_def)
  next
    case False
    with Cons.prems e obtain sz t where "ig (path_join rel n) = Some False" "node = File sz t"
      by auto
    then show ?thesis unfolding e by (simp add: Cons.IH [OF rest] Let_def)
  qed
qed


lemma scenario_exts:
  "toLowerCase (extname ''index.js'') = ''.js''"
  "toLowerCase (extname ''image.png'') = ''.png''"
  "toLowerCase (extname ''README.md'') = ''.md''"
  by code_simp+

lemma scenario_langs:
  "getLanguageFromExtension ''.js'' = Some ''JavaScript''"
  "getLanguageFromExtension ''.png'' = None"
  "getLanguageFromExtension ''.md'' = None"
  by code_simp+

lemma scenario_scores:
  "getFileImportance ''README.md'' = 100"
  "getFileImportance ''index.js'' = 80"
  "getFileImportance ''image.png'' = 10"
  by code_simp+

lemma scenario_binary:
  "\<not> isBinaryFile ''README.md''" "\<not> isBinaryFile ''index.js''" "isBinaryFile ''image.png''"
  by code_simp+

lemma scenario_components:
  "components ''README.md'' = [''README.md'']"
  "components ''index.js'' = [''index.js'']"
  "components ''image.png'' = [''image.png'']"
  "components ''.gitignore'' = [''.gitignore'']"
  by code_simp+

lemma scenario_fold:
  assumes "kept \<in> {[a, b, c], [a, c, b], [b, a, c], [b, c, a], [c, a, b], [c, b, a]}"
      and "a = (''index.js'', File 500 (Some js))"
      and "b = (''image.png'', File 1024 (Some ''PNG''))"
      and "c = (''README.md'', File 200 (Some md))"
      and "w = fold (\<lambda>(n, node) a. case node of
                       File sz t \<Rightarrow> recordFile n (path_join [] n) [] sz a | _ \<Rightarrow> a)
                 kept \<lparr>files = [], languages = [], calls = [[]]\<rparr>"
  shows "length (files w) = 3 \<and> languages w = [(''JavaScript'', 1)]
       \<and> mset (files w) = mset scenario_entries
       \<and> sort_by byImportance (map path (files w)) = [''README.md'', ''index.js'', ''image.png'']"
  using assms(1) unfolding assms(2-5)
  by (auto simp: path_join_def recordFile_def scenario_exts scenario_langs countLanguage_def
        Let_def scenario_entries_def sort_by_def byImportance_def scenario_scores)


text \<open>
  Claim C3. The scenario: the root lists, in any order, \<open>index.js\<close> (500 bytes),
  \<open>node_modules\<close> holding \<open>foo.js\<close>, \<open>image.png\<close> and \<open>README.md\<close> (200 bytes); there is no
  \<open>.gitignore\<close>, both texts are not empty, and the \<open>ignore\<close> package handles every list of
  simple patterns by the rule of \<open>simpleIgnores\<close>. Then \<open>total_files\<close> is 3, the languages
  are JavaScript: 1, the files recorded are the three files, the ranking is \<open>README.md\<close>,
  \<open>index.js\<close>, \<open>image.png\<close> with scores 100, 80 and 10, and \<open>fileContents\<close> holds exactly
  \<open>README.md\<close> and \<open>index.js\<close>. What the matcher answers is computed from the default
  patterns of \<open>_loadGitignore\<close>: \<open>node_modules\<close> is one of them and is ignored for that;
  \<open>image.png\<close> is left out of \<open>fileContents\<close> by its binary extension.
\<close>

theorem scenario_any_order:
  assumes package: "\<And>ps. list_all simple_pattern ps \<Longrightarrow> lib ps None = simpleIgnores ps"
      and ne: "js \<noteq> []" "md \<noteq> []"
      and c: "repoPath c = Some root"
      and order: "mset items = mset (scenario_items js md)"
  shows "\<exists>s. getFileStructure lib (disk_of_tree (Dir items)) c = (Inr s, c)
           \<and> total_files s = 3
           \<and> structure_languages s = [(''JavaScript'', 1)]
           \<and> mset (structure_files s) = mset scenario_entries
           \<and> getMainFiles lib (disk_of_tree (Dir items)) c =
               (Inr [''README.md'', ''index.js'', ''image.png''], c)
           \<and> map getFileImportance [''README.md'', ''index.js'', ''image.png''] = [100, 80, 10]
           \<and> readFileContents (disk_of_tree (Dir items))
                 (take 50 [''README.md'', ''index.js'', ''image.png'']) [] c =
               (Inr [(''README.md'', md), (''index.js'', js)], c)
           \<and> ''node_modules'' \<in> set defaultPatterns
           \<and> loadGitignore lib (disk_of_tree (Dir items)) ''node_modules'' = Some True
           \<and> isBinaryFile ''image.png''"
proof -
  let ?d = "disk_of_tree (Dir items)"
  let ?ig = "lib defaultPatterns None"
  have "list_all simple_pattern defaultPatterns" by code_simp
  then have "lib defaultPatterns None = simpleIgnores defaultPatterns" by (rule package)
  moreover have "simpleIgnores defaultPatterns ''node_modules'' = Some True"
                "simpleIgnores defaultPatterns ''index.js'' = Some False"
                "simpleIgnores defaultPatterns ''image.png'' = Some False"
                "simpleIgnores defaultPatterns ''README.md'' = Some False"
    by code_simp+
  ultimately have lib: "lib defaultPatterns None ''node_modules'' = Some True"
                       "lib defaultPatterns None ''index.js'' = Some False"
                       "lib defaultPatterns None ''image.png'' = Some False"
                       "lib defaultPatterns None ''README.md'' = Some False"
    by simp_all
  have listed: "''node_modules'' \<in> set defaultPatterns" by (simp add: defaultPatterns_def)
  let ?a = "(''index.js'', File 500 (Some js))"
  let ?b = "(''image.png'', File 1024 (Some ''PNG''))"
  let ?c = "(''README.md'', File 200 (Some md))"
  let ?unignored = "\<lambda>(n, node). ?ig (path_join [] n) = Some False"
  from order have items: "set items = set (scenario_items js md)" by (rule mset_eq_setD)
  from order have "mset (map fst items) = mset (map fst (scenario_items js md))" by simp
  moreover have "distinct (map fst (scenario_items js md))" by (simp add: scenario_items_def)
  ultimately have dist: "distinct (map fst items)" by (metis mset_eq_imp_distinct_iff)
  have found: "map_of items ''README.md'' = Some (File 200 (Some md))"
              "map_of items ''index.js'' = Some (File 500 (Some js))"
              "map_of items ''image.png'' = Some (File 1024 (Some ''PNG''))"
    using dist items by (simp_all add: scenario_items_def)
  have "''.gitignore'' \<notin> fst ` set items" by (simp add: items scenario_items_def)
  then have absent: "map_of items ''.gitignore'' = None" by (simp add: map_of_eq_None_iff)
  have ig: "loadGitignore lib ?d = ?ig"
    by (simp add: loadGitignore_def disk_of_tree_def scenario_components absent)
  have only: "list_all (\<lambda>(n, node). ?ig (path_join [] n) = Some True \<or>
                (?ig (path_join [] n) = Some False \<and> (\<exists>sz t. node = File sz t))) items"
    by (simp add: list_all_iff items scenario_items_def path_join_def lib)
  have "mset (filter ?unignored items) = filter_mset ?unignored (mset (scenario_items js md))"
    by (simp add: order [symmetric])
  also have "\<dots> = mset [?a, ?b, ?c]"
    by (simp add: scenario_items_def path_join_def lib)
  finally have "filter ?unignored items \<in>
      {[?a, ?b, ?c], [?a, ?c, ?b], [?b, ?a, ?c], [?b, ?c, ?a], [?c, ?a, ?b], [?c, ?b, ?a]}"
    by (rule perm3_cases)
  moreover have w: "walked lib ?d =
      fold (\<lambda>(n, node) a. case node of
              File sz t \<Rightarrow> recordFile n (path_join [] n) [] sz a | _ \<Rightarrow> a)
           (filter ?unignored items) \<lparr>files = [], languages = [], calls = [[]]\<rparr>"
    unfolding walked_def ig by (simp add: disk_of_tree_def walkItems_files_only [OF only])
  ultimately have walk:
    "length (files (walked lib ?d)) = 3 \<and> languages (walked lib ?d) = [(''JavaScript'', 1)]
     \<and> mset (files (walked lib ?d)) = mset scenario_entries
     \<and> sort_by byImportance (map path (files (walked lib ?d))) =
         [''README.md'', ''index.js'', ''image.png'']"
    by (rule scenario_fold [OF _ refl refl refl])
  have 1: "getFileStructure lib ?d c =
             (Inr \<lparr>total_files = 3, structure_languages = [(''JavaScript'', 1)],
                   structure_files = files (walked lib ?d)\<rparr>, c)"
    using walk by (simp add: getFileStructure_def c Let_def)
  have 2: "getMainFiles lib ?d c = (Inr [''README.md'', ''index.js'', ''image.png''], c)"
    using walk by (simp add: getMainFiles_def c Let_def)
  have 3: "map getFileImportance [''README.md'', ''index.js'', ''image.png''] = [100, 80, 10]"
    by (simp add: scenario_scores)
  have r: "readFileContent ?d ''README.md'' (Some 50000) c = (Inr (Some md), c)"
          "readFileContent ?d ''index.js'' (Some 50000) c = (Inr (Some js), c)"
          "readFileContent ?d ''image.png'' (Some 50000) c = (Inr None, c)"
    by (simp_all add: readFileContent_def c disk_of_tree_def scenario_components found
          scenario_binary)
  have 4: "readFileContents ?d (take 50 [''README.md'', ''index.js'', ''image.png'']) [] c =
           (Inr [(''README.md'', md), (''index.js'', js)], c)"
    by (simp add: r ne assign_def)
  from 1 2 3 4 walk listed ig lib(1) scenario_binary(3) show ?thesis by simp
qed


theorem scenario_any_order_witness:
  "list_all simple_pattern defaultPatterns
   \<and> simplePackage defaultPatterns None = simpleIgnores defaultPatterns
   \<and> ''main()'' \<noteq> [] \<and> ''# Hello'' \<noteq> []
   \<and> repoPath cloned_client = Some ''/tmp/repo''
   \<and> mset scenario_sorted = mset (scenario_items ''main()'' ''# Hello'')
   \<and> getMainFiles simplePackage (disk_of_tree (Dir scenario_sorted)) cloned_client =
       (Inr [''README.md'', ''index.js'', ''image.png''], cloned_client)
   \<and> readFileContents (disk_of_tree (Dir scenario_sorted))
         (take 50 [''README.md'', ''index.js'', ''image.png'']) [] cloned_client =
       (Inr [(''README.md'', ''# Hello''), (''index.js'', ''main()'')], cloned_client)
   \<and> loadGitignore simplePackage (disk_of_tree (Dir scenario_sorted)) ''node_modules'' =
       Some True"
proof -
  have 1: "simplePackage ps None = simpleIgnores ps" for ps
    by (simp add: simplePackage_def)
  have 2: "list_all simple_pattern defaultPatterns" by code_simp
  have 5: "''main()'' \<noteq> []" and 6: "''# Hello'' \<noteq> []" by simp_all
  have 7: "repoPath cloned_client = Some ''/tmp/repo''" by (simp add: cloned_client_def)
  have 8: "mset scenario_sorted = mset (scenario_items ''main()'' ''# Hello'')"
    by (simp add: scenario_sorted_def scenario_items_def)
  from scenario_any_order
         [where lib = simplePackage and js = "''main()''" and md = "''# Hello''"
            and c = cloned_client and root = "''/tmp/repo''" and items = scenario_sorted,
          OF 1 5 6 7 8]
       1 2 7 8
  show ?thesis by auto
qed

section \<open>Properties of the response parser\<close>

lemma jsonMatch_no_closing:
  "CHR ''}'' \<notin> set s \<Longrightarrow> jsonMatch s = None"
proof (induction s)
  case Nil
  then show ?case by simp
next
  case (Cons c s)
  then have "dropWhile (\<lambda>ch. ch \<noteq> CHR ''}'') (rev s) = []"
    by (auto simp: dropWhile_eq_Nil_conv)
  with Cons show ?case by (simp add: match_here_def)
qed

lemma match_here_split:
  assumes "match_here s = Some m"
  shows "\<exists>body post. s = m @ post \<and> m = ''{'' @ body @ ''}'' \<and> CHR ''}'' \<notin> set post"
proof -
  from assms obtain r where s: "s = CHR ''{'' # r"
    by (cases s) (auto simp: match_here_def split: if_splits)
  let ?P = "\<lambda>ch. ch \<noteq> CHR ''}''"
  let ?b = "rev (dropWhile ?P (rev r))"
  let ?post = "rev (takeWhile ?P (rev r))"
  from assms s have ne: "?b \<noteq> []" and m: "m = CHR ''{'' # ?b"
    by (auto simp: match_here_def Let_def split: if_splits)
  have r: "r = ?b @ ?post"
    by (metis rev_append rev_rev_ident takeWhile_dropWhile_id)
  from ne have ne': "dropWhile ?P (rev r) \<noteq> []" by simp
  from hd_dropWhile [OF ne'] have "hd (dropWhile ?P (rev r)) = CHR ''}''" by simp
  with ne' have "last ?b = CHR ''}''" by (simp add: last_rev)
  with ne obtain body where b: "?b = body @ ''}''"
    by (metis append_butlast_last_id)
  have "CHR ''}'' \<notin> set ?post"
    using set_takeWhileD by fastforce
  with s m r b show ?thesis by (metis append_Cons append_Nil)
qed

lemma match_here_at_brace:
  assumes "CHR ''}'' \<notin> set post"
  shows "match_here (''{'' @ body @ ''}'' @ post) = Some (''{'' @ body @ ''}'')"
proof -
  have "dropWhile (\<lambda>ch. ch \<noteq> CHR ''}'') (rev post) = []"
    using assms by (auto simp: dropWhile_eq_Nil_conv)
  then have "dropWhile (\<lambda>ch. ch \<noteq> CHR ''}'') (rev post @ CHR ''}'' # rev body) = CHR ''}'' # rev body"
    by (simp add: dropWhile_append3)
  then show ?thesis by (simp add: match_here_def)
qed

lemma jsonMatch_sound:
  "jsonMatch s = Some m \<Longrightarrow>
   \<exists>pre body post. s = pre @ m @ post \<and> m = ''{'' @ body @ ''}''
      \<and> CHR ''{'' \<notin> set pre \<and> CHR ''}'' \<notin> set post"
proof (induction s)
  case Nil
  then show ?case by simp
next
  case (Cons c s)
  show ?case
  proof (cases "match_here (c # s)")
    case (Some m')
    with Cons.prems have "m' = m" by simp
    with Some match_here_split [of "c # s" m] show ?thesis
      by (metis append_Nil empty_iff list.set(1))
  next
    case None
    with Cons.prems have rec: "jsonMatch s = Some m" by simp
    have "c \<noteq> CHR ''{''"
    proof
      assume c: "c = CHR ''{''"
      with None have "dropWhile (\<lambda>ch. ch \<noteq> CHR ''}'') (rev s) = []"
        by (simp add: match_here_def Let_def split: if_splits)
      then have "CHR ''}'' \<notin> set s" by (auto simp: dropWhile_eq_Nil_conv)
      with rec show False by (simp add: jsonMatch_no_closing)
    qed
    moreover from Cons.IH [OF rec] obtain pre body post where
      "s = pre @ m @ post" "m = ''{'' @ body @ ''}''" "CHR ''{'' \<notin> set pre" "CHR ''}'' \<notin> set post"
      by blast
    ultimately have "c # s = (c # pre) @ m @ post \<and> m = ''{'' @ body @ ''}''
        \<and> CHR ''{'' \<notin> set (c # pre) \<and> CHR ''}'' \<notin> set post" by simp
    then show ?thesis by blast
  qed
qed

lemma jsonMatch_complete:
  "CHR ''{'' \<notin> set pre \<Longrightarrow> CHR ''}'' \<notin> set post \<Longrightarrow>
   jsonMatch (pre @ ''{'' @ body @ ''}'' @ post) = Some (''{'' @ body @ ''}'')"
proof (induction pre)
  case Nil
  with match_here_at_brace [of post body] show ?case by simp
next
  case (Cons c pre)
  then have "match_here (c # pre @ ''{'' @ body @ ''}'' @ post) = None"
    by (auto simp: match_here_def)
  with Cons show ?case by simp
qed

lemma jsonMatch_iff:
  "jsonMatch s = Some m \<longleftrightarrow>
   (\<exists>pre body post. s = pre @ m @ post \<and> m = ''{'' @ body @ ''}''
      \<and> CHR ''{'' \<notin> set pre \<and> CHR ''}'' \<notin> set post)"
proof
  assume "jsonMatch s = Some m"
  then show "\<exists>pre body post. s = pre @ m @ post \<and> m = ''{'' @ body @ ''}''
      \<and> CHR ''{'' \<notin> set pre \<and> CHR ''}'' \<notin> set post"
    by (rule jsonMatch_sound)
next
  assume "\<exists>pre body post. s = pre @ m @ post \<and> m = ''{'' @ body @ ''}''
      \<and> CHR ''{'' \<notin> set pre \<and> CHR ''}'' \<notin> set post"
  then obtain pre body post where
    "s = pre @ m @ post" "m = ''{'' @ body @ ''}''" "CHR ''{'' \<notin> set pre" "CHR ''}'' \<notin> set post"
    by blast
  with jsonMatch_complete [of pre post body] show "jsonMatch s = Some m" by simp
qed

text \<open>
  Claim C2, amended. For every response text, \<open>_parseJsonResponse\<close> takes the part of the
  text from its first opening brace to its last closing brace (there is one exactly when a
  closing brace follows the first opening brace) and returns what \<open>JSON.parse\<close> makes of it;
  when there is no such part it returns the fallback with the error "Could not parse
  response", when \<open>JSON.parse\<close> throws it returns the fallback with the error "JSON parse
  error", each with the first 500 characters of the text as \<open>raw_response\<close>; it returns a
  value for every text.
\<close>

theorem parseJsonResponse_first_to_last_brace:
  "(\<forall>m. jsonMatch response = Some m \<longleftrightarrow>
         (\<exists>pre body post. response = pre @ m @ post \<and> m = ''{'' @ body @ ''}''
            \<and> CHR ''{'' \<notin> set pre \<and> CHR ''}'' \<notin> set post))
   \<and> parseJsonResponse parse response =
       (case jsonMatch response of
          None \<Rightarrow> Fallback ''Could not parse response'' (take 500 response)
        | Some m \<Rightarrow>
            (case parse m of
               None \<Rightarrow> Fallback ''JSON parse error'' (take 500 response)
             | Some j \<Rightarrow> Parsed j))"
proof -
  have "parseJsonResponse parse response =
       (case jsonMatch response of
          None \<Rightarrow> Fallback ''Could not parse response'' (take 500 response)
        | Some m \<Rightarrow>
            (case parse m of
               None \<Rightarrow> Fallback ''JSON parse error'' (take 500 response)
             | Some j \<Rightarrow> Parsed j))"
    by (simp add: parseJsonResponse_def split: option.splits)
  with jsonMatch_iff show ?thesis by blast
qed

text \<open>
  Claim C2 as the specification words it fails on a text with two objects: the first
  top-level object of \<open>{} {}\<close> is \<open>{}\<close>, which parses, but the code hands \<open>JSON.parse\<close> the
  whole text and returns the fallback.
\<close>

theorem parseJsonResponse_two_objects:
  "parseJsonResponse JSON_parse ''{} {}'' = Fallback ''JSON parse error'' ''{} {}''
   \<and> first_top_level_object ''{} {}'' = Some ''{}''
   \<and> JSON_parse ''{}'' = Some (JObject [])
   \<and> parseJsonResponse_as_specified JSON_parse ''{} {}'' = Parsed (JObject [])
   \<and> parseJsonResponse JSON_parse ''{} {}'' \<noteq>
       parseJsonResponse_as_specified JSON_parse ''{} {}''"
proof -
  have m: "jsonMatch ''{} {}'' = Some ''{} {}''" by code_simp
  have f: "first_top_level_object ''{} {}'' = Some ''{}''" by code_simp
  have p1: "JSON_parse ''{} {}'' = None" by code_simp
  have p2: "JSON_parse ''{}'' = Some (JObject [])" by code_simp
  have a: "parseJsonResponse JSON_parse ''{} {}'' = Fallback ''JSON parse error'' ''{} {}''"
    unfolding parseJsonResponse_def m by (simp add: p1)
  have b: "parseJsonResponse_as_specified JSON_parse ''{} {}'' = Parsed (JObject [])"
    unfolding parseJsonResponse_as_specified_def f by (simp add: p2)
  from a b f p2 show ?thesis by simp
qed


end
